theory Spec2Isabelle
  imports Main "HOL-Library.Word"
begin

unbundle bit_operations_syntax

text \<open>
  A model of the Globus SDK's login clients (\<open>AuthLoginClient\<close>,
  \<open>ConfidentialAppAuthClient\<close>), of the listing methods of \<open>FlowsClient\<close> and of the
  helpers of \<open>utils.py\<close> they use, with the properties of the requests they build.
\<close>

section \<open>Python values\<close>

text \<open>
  The values the SDK handles here are scalars and flat sequences of scalars. A scalar is
  never \<open>None\<close>: an argument annotated \<open>X | None\<close> is an \<open>option\<close>, and a
  dict value that is \<open>None\<close> is \<open>PNone\<close>. A \<open>uuid.UUID\<close> is its 128-bit
  \<open>int\<close> attribute. A dict is a map from its string keys; the order of the keys plays
  no part in what follows.
\<close>

datatype scalar = SBool bool | SInt int | SStr string | SUUID "128 word"

datatype pyval = PNone | PScalar scalar | PList "scalar list"

type_synonym dict = "string \<rightharpoonup> pyval"

subsection \<open>The built-in \<open>str\<close>\<close>

definition digit_char :: "nat \<Rightarrow> char" where
  "digit_char n = ''0123456789abcdef'' ! (n mod 16)"

function nat_str :: "nat \<Rightarrow> string" where
  "nat_str n = (if n < 10 then [digit_char n] else nat_str (n div 10) @ [digit_char (n mod 10)])"
  by pat_completeness auto
termination
  by (relation "measure id") auto

definition int_str :: "int \<Rightarrow> string" where
  "int_str i = (if i < 0 then CHR ''-'' # nat_str (nat (- i)) else nat_str (nat i))"

text \<open>\<open>'%032x' % self.int\<close>: the 32 hexadecimal digits, most significant first.\<close>

definition hex32 :: "128 word \<Rightarrow> string" where
  "hex32 w = map (\<lambda>i. digit_char (unat (drop_bit (4 * (31 - i)) w AND 15))) [0..<32]"

text \<open>\<open>UUID.__str__\<close>: the digits in groups of 8, 4, 4, 4 and 12.\<close>

definition uuid_str :: "128 word \<Rightarrow> string" where
  "uuid_str w =
     (let h = hex32 w
      in take 8 h @ ''-'' @ take 4 (drop 8 h) @ ''-'' @ take 4 (drop 12 h) @ ''-''
         @ take 4 (drop 16 h) @ ''-'' @ drop 20 h)"

fun py_str :: "scalar \<Rightarrow> string" where
  "py_str (SBool b) = (if b then ''True'' else ''False'')"
| "py_str (SInt i) = int_str i"
| "py_str (SStr s) = s"
| "py_str (SUUID u) = uuid_str u"

text \<open>\<open>sep.join(xs)\<close>.\<close>

fun join :: "string \<Rightarrow> string list \<Rightarrow> string" where
  "join sep [] = []"
| "join sep [x] = x"
| "join sep (x # y # ys) = x @ sep @ join sep (y # ys)"

section \<open>Errors\<close>

text \<open>
  Modelled from the spec: the error taxonomy of section 7 (the module \<open>exc\<close> is not among
  the sources). \<open>GlobusSDKUsageError\<close> is the usage error the login client raises;
  \<open>TransportError\<close> is a network failure, \<open>APIError\<close> a non-2xx response with its
  status and message, \<open>DecodingError\<close> a body of the wrong shape. \<open>ValueError\<close> is
  Python's own.
\<close>

datatype error =
    is_usage_error: GlobusSDKUsageError string
  | is_transport_error: TransportError string
  | is_api_error: APIError nat string
  | is_decoding_error: DecodingError string
  | ValueError

section \<open>\<open>utils.py\<close>\<close>

text \<open>
  The argument of \<open>safe_strseq_iter\<close> is annotated \<open>Iterable[Any] | str | UUID\<close>, that
  of \<open>commajoin\<close> \<open>UUIDLike | Iterable[UUIDLike]\<close>: a solitary string, a solitary UUID,
  or an iterable, whose elements are scalars here.
\<close>

datatype strseq = Solitary_str string | Solitary_UUID "128 word" | Iterable "scalar list"

text \<open>The generator \<open>safe_strseq_iter\<close>, as the list of what it yields.\<close>

fun safe_strseq_iter :: "strseq \<Rightarrow> string list" where
  "safe_strseq_iter (Solitary_str s) = [s]"
| "safe_strseq_iter (Solitary_UUID u) = [py_str (SUUID u)]"
| "safe_strseq_iter (Iterable xs) = map py_str xs"

text \<open>
  \<open>commajoin\<close> tests \<open>isinstance(val, collections.abc.Iterable)\<close>: that holds
  of a \<open>str\<close> and of an iterable, which go through \<open>safe_strseq_iter\<close>, and not
  of a \<open>UUID\<close>, which goes to \<open>str(val)\<close>.
\<close>

definition commajoin :: "strseq \<Rightarrow> string" where
  "commajoin val =
     (case val of
        Solitary_UUID u \<Rightarrow> py_str (SUUID u)
      | _ \<Rightarrow> join '','' (safe_strseq_iter val))"

subsection \<open>PayloadWrapper\<close>

text \<open>
  \<open>PayloadWrapper\<close> is a \<open>UserDict\<close>: the object is its wrapped dict. A method that
  writes into it takes the dict and returns it updated, beside \<open>Inr ()\<close> when the call
  returns and \<open>Inl e\<close> when it raises \<open>e\<close>. The four setters always pass a callback,
  so \<open>callback(val) if callback else val\<close> is \<open>callback(val)\<close>; a callback that
  raises leaves the dict as it is.
\<close>

definition set_value ::
  "string \<Rightarrow> 'v option \<Rightarrow> ('v \<Rightarrow> error + pyval) \<Rightarrow> dict \<Rightarrow> (error + unit) \<times> dict" where
  "set_value key val callback self =
     (case val of
        None \<Rightarrow> (Inr (), self)
      | Some v \<Rightarrow>
          (case callback v of
             Inl e \<Rightarrow> (Inl e, self)
           | Inr c \<Rightarrow> (Inr (), self(key \<mapsto> c))))"

text \<open>
  \<open>for k, v in kwargs.items(): self._set_value(k, v, callback=...)\<close>: the keyword
  arguments in the order they were written; an exception ends the loop.
\<close>

fun set_each ::
  "('v \<Rightarrow> error + pyval) \<Rightarrow> (string \<times> 'v option) list \<Rightarrow> dict \<Rightarrow> (error + unit) \<times> dict" where
  "set_each callback [] self = (Inr (), self)"
| "set_each callback ((k, v) # kwargs) self =
     (case set_value k v callback self of
        (Inl e, self') \<Rightarrow> (Inl e, self')
      | (Inr u, self') \<Rightarrow> set_each callback kwargs self')"

definition set_optstrs :: "(string \<times> scalar option) list \<Rightarrow> dict \<Rightarrow> (error + unit) \<times> dict" where
  "set_optstrs kwargs self = set_each (\<lambda>v. Inr (PScalar (SStr (py_str v)))) kwargs self"

definition set_optstrlists ::
  "(string \<times> strseq option) list \<Rightarrow> dict \<Rightarrow> (error + unit) \<times> dict" where
  "set_optstrlists kwargs self =
     set_each (\<lambda>x. Inr (PList (map SStr (safe_strseq_iter x)))) kwargs self"

definition set_optbools :: "(string \<times> bool option) list \<Rightarrow> dict \<Rightarrow> (error + unit) \<times> dict" where
  "set_optbools kwargs self = set_each (\<lambda>v. Inr (PScalar (SBool v))) kwargs self"

text \<open>
  The built-in \<open>int\<close>: the value of an \<open>int\<close>, 0 or 1 of a \<open>bool\<close>, \<open>__int__\<close> of a
  \<open>UUID\<close>. A \<open>str\<close> is parsed as a numeral in base 10: one made of letters only (the
  empty one included) has no digit and raises \<open>ValueError\<close>; how any other \<open>str\<close> is
  parsed is the parameter \<open>int_of_str\<close>.
\<close>

definition only_letters :: "string \<Rightarrow> bool" where
  "only_letters s =
     list_all (\<lambda>c. c \<in> set ''abcdefghijklmnopqrstuvwxyzABCDEFGHIJKLMNOPQRSTUVWXYZ'') s"

fun py_int :: "(string \<Rightarrow> error + int) \<Rightarrow> scalar \<Rightarrow> error + int" where
  "py_int int_of_str (SBool b) = Inr (if b then 1 else 0)"
| "py_int int_of_str (SInt i) = Inr i"
| "py_int int_of_str (SStr s) = (if only_letters s then Inl ValueError else int_of_str s)"
| "py_int int_of_str (SUUID u) = Inr (uint u)"

definition int_callback :: "(string \<Rightarrow> error + int) \<Rightarrow> scalar \<Rightarrow> error + pyval" where
  "int_callback int_of_str v =
     (case py_int int_of_str v of Inl e \<Rightarrow> Inl e | Inr i \<Rightarrow> Inr (PScalar (SInt i)))"

definition set_optints ::
  "(string \<Rightarrow> error + int) \<Rightarrow> (string \<times> scalar option) list \<Rightarrow> dict \<Rightarrow> (error + unit) \<times> dict" where
  "set_optints int_of_str kwargs self = set_each (int_callback int_of_str) kwargs self"

section \<open>HTTP\<close>

text \<open>
  Modelled from the spec: the transport capability of section 6 and the \<open>get\<close> and
  \<open>post\<close> methods of \<open>BaseClient\<close> (client.py is not among the sources). A request
  is what a method hands to the transport; the transport answers with a response or
  raises, and its answer may depend on the requests made before. Every request a client
  makes is appended to a log, so that a method's network traffic is what it adds to the log.
\<close>

datatype http_method = GET | POST

record request =
  req_method :: http_method
  req_path :: string
  req_query_params :: dict
  req_data :: "dict option"
  req_encoding :: "string option"

datatype GlobusHTTPResponse = GlobusHTTPResponse nat string

type_synonym transport = "request list \<Rightarrow> request \<Rightarrow> error + GlobusHTTPResponse"

definition get_request :: "string \<Rightarrow> dict \<Rightarrow> request" where
  "get_request path query_params =
     \<lparr>req_method = GET, req_path = path, req_query_params = query_params,
      req_data = None, req_encoding = None\<rparr>"

definition post_request :: "string \<Rightarrow> dict \<Rightarrow> string \<Rightarrow> request" where
  "post_request path data encoding =
     \<lparr>req_method = POST, req_path = path, req_query_params = Map.empty,
      req_data = Some data, req_encoding = Some encoding\<rparr>"

definition BaseClient_get ::
  "transport \<Rightarrow> string \<Rightarrow> dict \<Rightarrow> request list \<Rightarrow> (error + GlobusHTTPResponse) \<times> request list" where
  "BaseClient_get send path query_params log =
     (let req = get_request path query_params
      in (send log req, log @ [req]))"

definition BaseClient_post ::
  "transport \<Rightarrow> string \<Rightarrow> dict \<Rightarrow> string \<Rightarrow> request list
     \<Rightarrow> (error + GlobusHTTPResponse) \<times> request list" where
  "BaseClient_post send path data encoding log =
     (let req = post_request path data encoding
      in (send log req, log @ [req]))"

text \<open>
  \<open>if other: d.update(other)\<close>: a dict argument is truthy when it is given and not
  empty.
\<close>

definition update_if_truthy :: "dict \<Rightarrow> dict option \<Rightarrow> dict" where
  "update_if_truthy d other =
     (case other of
        None \<Rightarrow> d
      | Some m \<Rightarrow> (if m \<noteq> Map.empty then d ++ m else d))"

section \<open>The login clients\<close>

text \<open>
  Modelled from the spec: the authorizers (the module \<open>authorizers\<close> is not among the
  sources). \<open>NullAuthorizer\<close> is the "no authorizer" variant, distinguishable by its tag;
  the others attach a header.
\<close>

datatype authorizer =
    NullAuthorizer
  | BasicAuthorizer string string
  | AccessTokenAuthorizer string

fun isinstance_NullAuthorizer :: "authorizer \<Rightarrow> bool" where
  "isinstance_NullAuthorizer NullAuthorizer = True"
| "isinstance_NullAuthorizer _ = False"

text \<open>
  Modelled from the spec: \<open>_guards.is_optional(value, typ)\<close> (the module \<open>_guards\<close> is
  not among the sources): the value is null/absent or of the type.
\<close>

definition is_optional :: "'a option \<Rightarrow> ('a \<Rightarrow> bool) \<Rightarrow> bool" where
  "is_optional v typ = (case v of None \<Rightarrow> True | Some a \<Rightarrow> typ a)"

text \<open>\<open>ScopeCollectionType\<close>: one scope string or a sequence of them.\<close>

datatype scope_collection = ScopeStr string | ScopeSeq "string list"

text \<open>
  Modelled from the spec: \<open>GlobusAuthorizationCodeFlowManager\<close> (the modules
  \<open>flow_managers\<close> and \<open>_common\<close> are not among the sources) holds the owning
  client's client_id, the redirect URI, the requested scopes as one string, the
  \<open>state\<close> token and whether refresh tokens were requested.
\<close>

record GlobusAuthorizationCodeFlowManager =
  fm_client_id :: "string option"
  fm_redirect_uri :: string
  fm_requested_scopes :: string
  fm_state :: string
  fm_refresh_tokens :: bool

text \<open>
  The scopes a manager is given when \<open>requested_scopes\<close> is \<open>None\<close>, as the docstring
  of \<open>oauth2_start_flow\<close> names them.
\<close>

definition DEFAULT_REQUESTED_SCOPES :: string where
  "DEFAULT_REQUESTED_SCOPES =
     ''openid profile email urn:globus:auth:scope:transfer.api.globus.org:all''"

text \<open>
  \<open>AuthLoginClient\<close>. Flow managers are objects: they live in a store, a list indexed
  by reference, and \<open>current_oauth2_flow_manager\<close> holds a reference or \<open>None\<close>.
\<close>

record AuthLoginClient =
  client_id :: "string option"
  authorizer :: "authorizer option"
  current_oauth2_flow_manager :: "nat option"

text \<open>The state a method of the client works on: the client, the store, the log.\<close>

record world =
  client :: AuthLoginClient
  flow_managers :: "GlobusAuthorizationCodeFlowManager list"
  http_log :: "request list"


text \<open>
  Modelled from the spec: the constructor of the manager (not among the sources). The spec
  has the scopes of a manager joined by whitespace, and the docstring of
  \<open>oauth2_start_flow\<close> names the default. The constructor turns the requested scopes
  into one string (the default scopes for \<open>None\<close>, a string as it is, a sequence joined
  by spaces), as the package's \<open>stringify_requested_scopes\<close> does, which refuses an
  empty string with a \<open>GlobusSDKUsageError\<close>; then it stores its arguments. A
  constructor that raises builds no manager.
\<close>

definition manager_scopes_string :: "scope_collection option \<Rightarrow> error + string" where
  "manager_scopes_string requested_scopes =
     (let requested_scopes_string =
            (case requested_scopes of
               None \<Rightarrow> DEFAULT_REQUESTED_SCOPES
             | Some (ScopeStr s) \<Rightarrow> s
             | Some (ScopeSeq xs) \<Rightarrow> join '' '' xs)
      in if requested_scopes_string = []
         then Inl (GlobusSDKUsageError
                ''requested_scopes cannot be the empty string or empty collection'')
         else Inr requested_scopes_string)"

definition GlobusAuthorizationCodeFlowManager_init ::
  "AuthLoginClient \<Rightarrow> string \<Rightarrow> scope_collection option \<Rightarrow> string \<Rightarrow> bool
     \<Rightarrow> error + GlobusAuthorizationCodeFlowManager" where
  "GlobusAuthorizationCodeFlowManager_init auth_client redirect_uri requested_scopes state'
       refresh_tokens =
     (case manager_scopes_string requested_scopes of
        Inl e \<Rightarrow> Inl e
      | Inr s \<Rightarrow>
          Inr \<lparr>fm_client_id = client_id auth_client,
               fm_redirect_uri = redirect_uri,
               fm_requested_scopes = s,
               fm_state = state',
               fm_refresh_tokens = refresh_tokens\<rparr>)"

definition AuthLoginClient_init :: "scalar option \<Rightarrow> authorizer option \<Rightarrow> AuthLoginClient" where
  "AuthLoginClient_init client_id' authorizer' =
     \<lparr>client_id = (case client_id' of None \<Rightarrow> None | Some c \<Rightarrow> Some (py_str c)),
      authorizer = authorizer',
      current_oauth2_flow_manager = None\<rparr>"

definition ConfidentialAppAuthClient_init :: "scalar \<Rightarrow> string \<Rightarrow> AuthLoginClient" where
  "ConfidentialAppAuthClient_init client_id' client_secret =
     AuthLoginClient_init (Some client_id') (Some (BasicAuthorizer (py_str client_id') client_secret))"

subsection \<open>\<open>base_login_client.py\<close>\<close>

text \<open>
  The methods of the flow manager are not among the sources; they are parameters.
  \<open>get_authorize_url\<close> is, by the spec, a pure function of the manager and the
  supplied query parameters; \<open>exchange_code_for_tokens\<close> calls the token endpoint, so
  it works on the log.

  A method that writes into a dict its caller supplied returns, as its second component,
  what that dict holds when the method is left (\<open>None\<close> when the caller supplied none);
  the last component is the state.
\<close>

definition oauth2_get_authorize_url ::
  "(GlobusAuthorizationCodeFlowManager \<Rightarrow> dict \<Rightarrow> string) \<Rightarrow>
   strseq option \<Rightarrow> strseq option \<Rightarrow> strseq option \<Rightarrow> string option \<Rightarrow> dict option \<Rightarrow>
   world \<Rightarrow> (error + string) \<times> dict option \<times> world" where
  "oauth2_get_authorize_url get_authorize_url session_required_identities
     session_required_single_domain session_required_policies prompt query_params w =
     (case current_oauth2_flow_manager (client w) of
        None \<Rightarrow>
          (Inl (GlobusSDKUsageError
             (''Cannot get authorize URL until starting an OAuth2 flow. ''
              @ ''Call the oauth2_start_flow() method on this ''
              @ ''AuthClient to resolve'')),
           query_params, w)
      | Some r \<Rightarrow>
          (let qp0 = (case query_params of None \<Rightarrow> Map.empty | Some q \<Rightarrow> q);
               qp1 = (case session_required_identities of
                        None \<Rightarrow> qp0
                      | Some v \<Rightarrow> qp0(''session_required_identities'' \<mapsto> PScalar (SStr (commajoin v))));
               qp2 = (case session_required_single_domain of
                        None \<Rightarrow> qp1
                      | Some v \<Rightarrow> qp1(''session_required_single_domain'' \<mapsto> PScalar (SStr (commajoin v))));
               qp3 = (case session_required_policies of
                        None \<Rightarrow> qp2
                      | Some v \<Rightarrow> qp2(''session_required_policies'' \<mapsto> PScalar (SStr (commajoin v))));
               qp4 = (case prompt of
                        None \<Rightarrow> qp3
                      | Some p \<Rightarrow> qp3(''prompt'' \<mapsto> PScalar (SStr p)));
               auth_url = get_authorize_url (flow_managers w ! r) qp4
           in (Inr auth_url,
               (case query_params of None \<Rightarrow> None | Some q \<Rightarrow> Some qp4),
               w)))"

definition oauth2_exchange_code_for_tokens ::
  "(GlobusAuthorizationCodeFlowManager \<Rightarrow> string \<Rightarrow> request list \<Rightarrow> (error + 'rt) \<times> request list) \<Rightarrow>
   string \<Rightarrow> world \<Rightarrow> (error + 'rt) \<times> world" where
  "oauth2_exchange_code_for_tokens exchange_code_for_tokens auth_code w =
     (case current_oauth2_flow_manager (client w) of
        None \<Rightarrow>
          (Inl (GlobusSDKUsageError
             (''Cannot exchange auth code until starting an OAuth2 flow. ''
              @ ''Call the oauth2_start_flow() method on this ''
              @ ''AuthClient to resolve'')),
           w)
      | Some r \<Rightarrow>
          (case exchange_code_for_tokens (flow_managers w ! r) auth_code (http_log w) of
             (res, log') \<Rightarrow> (res, w\<lparr>http_log := log'\<rparr>)))"

text \<open>
  Modelled from the spec: the response classes (the module \<open>response\<close> is not among the
  sources) wrap the response they are given; \<open>OAuthDependentTokenResponse\<close> is the
  flat-list variant.
\<close>

datatype token_response =
    OAuthTokenResponse GlobusHTTPResponse
  | OAuthDependentTokenResponse GlobusHTTPResponse

definition oauth2_token ::
  "transport \<Rightarrow> dict \<Rightarrow> dict option \<Rightarrow> (GlobusHTTPResponse \<Rightarrow> 'rt) \<Rightarrow> world \<Rightarrow> (error + 'rt) \<times> world" where
  "oauth2_token send form_data body_params response_class w =
     (let data0 = form_data;
          data1 = update_if_truthy data0 body_params
      in case BaseClient_post send ''/v2/oauth2/token'' data1 ''form'' (http_log w) of
           (Inl e, log') \<Rightarrow> (Inl e, w\<lparr>http_log := log'\<rparr>)
         | (Inr r, log') \<Rightarrow> (Inr (response_class r), w\<lparr>http_log := log'\<rparr>))"

definition oauth2_refresh_token ::
  "transport \<Rightarrow> string \<Rightarrow> dict option \<Rightarrow> world \<Rightarrow> (error + token_response) \<times> world" where
  "oauth2_refresh_token send refresh_token body_params w =
     (let form_data = [''refresh_token'' \<mapsto> PScalar (SStr refresh_token),
                       ''grant_type'' \<mapsto> PScalar (SStr ''refresh_token'')]
      in oauth2_token send form_data body_params OAuthTokenResponse w)"

text \<open>
  \<open>self.client_id\<close> as a condition holds of a string that is not empty, and neither of
  \<open>None\<close> nor of the empty string.
\<close>

definition oauth2_validate_token ::
  "transport \<Rightarrow> string \<Rightarrow> dict option \<Rightarrow> world \<Rightarrow> (error + GlobusHTTPResponse) \<times> world" where
  "oauth2_validate_token send token body_params w =
     (let body0 = [''token'' \<mapsto> PScalar (SStr token)];
          no_authentication = is_optional (authorizer (client w)) isinstance_NullAuthorizer;
          body1 = (case client_id (client w) of
                     None \<Rightarrow> body0
                   | Some c \<Rightarrow>
                       (if no_authentication \<and> c \<noteq> []
                        then body0(''client_id'' \<mapsto> PScalar (SStr c))
                        else body0));
          body2 = update_if_truthy body1 body_params
      in case BaseClient_post send ''/v2/oauth2/token/validate'' body2 ''form'' (http_log w) of
           (res, log') \<Rightarrow> (res, w\<lparr>http_log := log'\<rparr>))"

definition oauth2_revoke_token ::
  "transport \<Rightarrow> string \<Rightarrow> dict option \<Rightarrow> world \<Rightarrow> (error + GlobusHTTPResponse) \<times> world" where
  "oauth2_revoke_token send token body_params w =
     (let body0 = [''token'' \<mapsto> PScalar (SStr token)];
          no_authentication =
            (authorizer (client w) = None
             \<or> (case authorizer (client w) of None \<Rightarrow> False | Some a \<Rightarrow> isinstance_NullAuthorizer a));
          body1 = (case client_id (client w) of
                     None \<Rightarrow> body0
                   | Some c \<Rightarrow>
                       (if no_authentication \<and> c \<noteq> []
                        then body0(''client_id'' \<mapsto> PScalar (SStr c))
                        else body0));
          body2 = update_if_truthy body1 body_params
      in case BaseClient_post send ''/v2/oauth2/token/revoke'' body2 ''form'' (http_log w) of
           (res, log') \<Rightarrow> (res, w\<lparr>http_log := log'\<rparr>))"

subsection \<open>\<open>confidential_client.py\<close>\<close>

text \<open>
  \<open>stringify_requested_scopes\<close> (the module \<open>_common\<close> is not among the sources) is
  a parameter.
\<close>

definition oauth2_client_credentials_tokens ::
  "transport \<Rightarrow> (scope_collection option \<Rightarrow> string) \<Rightarrow> scope_collection option \<Rightarrow> world
     \<Rightarrow> (error + token_response) \<times> world" where
  "oauth2_client_credentials_tokens send stringify_requested_scopes requested_scopes w =
     (let requested_scopes_string = stringify_requested_scopes requested_scopes
      in oauth2_token send
           [''grant_type'' \<mapsto> PScalar (SStr ''client_credentials''),
            ''scope'' \<mapsto> PScalar (SStr requested_scopes_string)]
           None OAuthTokenResponse w)"

text \<open>
  \<open>oauth2_start_flow\<close> calls the constructor; when that raises, so does the method, before
  any assignment. Otherwise it allocates the new manager at the end of the store, assigns
  its reference to \<open>self.current_oauth2_flow_manager\<close> and returns what that attribute
  then holds.
\<close>

definition oauth2_start_flow ::
  "string \<Rightarrow> scope_collection option \<Rightarrow> string \<Rightarrow> bool \<Rightarrow> world
     \<Rightarrow> (error + nat option) \<times> world" where
  "oauth2_start_flow redirect_uri requested_scopes state' refresh_tokens w =
     (case GlobusAuthorizationCodeFlowManager_init (client w) redirect_uri requested_scopes
             state' refresh_tokens of
        Inl e \<Rightarrow> (Inl e, w)
      | Inr manager \<Rightarrow>
          (let r = length (flow_managers w);
               w' = w\<lparr>flow_managers := flow_managers w @ [manager],
                       client := (client w)\<lparr>current_oauth2_flow_manager := Some r\<rparr>\<rparr>
           in (Inr (current_oauth2_flow_manager (client w')), w')))"

definition oauth2_get_dependent_tokens ::
  "transport \<Rightarrow> string \<Rightarrow> bool \<Rightarrow> dict option \<Rightarrow> world \<Rightarrow> (error + token_response) \<times> world" where
  "oauth2_get_dependent_tokens send token refresh_tokens additional_params w =
     (let form_data0 = [''grant_type'' \<mapsto> PScalar (SStr ''urn:globus:auth:grant_type:dependent_token''),
                        ''token'' \<mapsto> PScalar (SStr token)];
          form_data1 = (if refresh_tokens
                        then form_data0(''access_type'' \<mapsto> PScalar (SStr ''offline''))
                        else form_data0);
          form_data2 = update_if_truthy form_data1 additional_params
      in oauth2_token send form_data2 None OAuthDependentTokenResponse w)"

section \<open>\<open>flows/client.py\<close>\<close>

text \<open>
  \<open>FlowsClient\<close> keeps no state of its own here: its methods work on the log. The three
  listing methods wrap the response in their response class. \<open>orderby\<close> is one string or
  an iterable of strings.
\<close>

datatype flows_response =
    IterableFlowsResponse GlobusHTTPResponse
  | IterableRunsResponse GlobusHTTPResponse
  | IterableRunLogsResponse GlobusHTTPResponse

datatype orderby = OrderStr string | OrderSeq "string list"

definition list_flows ::
  "transport \<Rightarrow> string option \<Rightarrow> string option \<Rightarrow> orderby option \<Rightarrow> string option \<Rightarrow> dict option \<Rightarrow>
   request list \<Rightarrow> (error + flows_response) \<times> dict option \<times> request list" where
  "list_flows send filter_role filter_fulltext orderby' marker query_params log =
     (let qp0 = (case query_params of None \<Rightarrow> Map.empty | Some q \<Rightarrow> q);
          qp1 = (case filter_role of
                   None \<Rightarrow> qp0
                 | Some r \<Rightarrow> qp0(''filter_role'' \<mapsto> PScalar (SStr r)));
          qp2 = (case filter_fulltext of
                   None \<Rightarrow> qp1
                 | Some f \<Rightarrow> qp1(''filter_fulltext'' \<mapsto> PScalar (SStr f)));
          qp3 = (case orderby' of
                   None \<Rightarrow> qp2
                 | Some (OrderStr s) \<Rightarrow> qp2(''orderby'' \<mapsto> PScalar (SStr s))
                 | Some (OrderSeq xs) \<Rightarrow> qp2(''orderby'' \<mapsto> PList (map SStr xs)));
          qp4 = (case marker of
                   None \<Rightarrow> qp3
                 | Some m \<Rightarrow> qp3(''marker'' \<mapsto> PScalar (SStr m)));
          caller_dict = (case query_params of None \<Rightarrow> None | Some q \<Rightarrow> Some qp4)
      in case BaseClient_get send ''/flows'' qp4 log of
           (Inl e, log') \<Rightarrow> (Inl e, caller_dict, log')
         | (Inr r, log') \<Rightarrow> (Inr (IterableFlowsResponse r), caller_dict, log'))"

definition list_runs ::
  "transport \<Rightarrow> strseq option \<Rightarrow> string option \<Rightarrow> dict option \<Rightarrow>
   request list \<Rightarrow> (error + flows_response) \<times> dict option \<times> request list" where
  "list_runs send filter_flow_id marker query_params log =
     (let qp0 = (case query_params of None \<Rightarrow> Map.empty | Some q \<Rightarrow> q);
          qp1 = (case filter_flow_id of
                   None \<Rightarrow> qp0
                 | Some v \<Rightarrow> qp0(''filter_flow_id'' \<mapsto> PScalar (SStr (join '','' (safe_strseq_iter v)))));
          qp2 = (case marker of
                   None \<Rightarrow> qp1
                 | Some m \<Rightarrow> qp1(''marker'' \<mapsto> PScalar (SStr m)));
          caller_dict = (case query_params of None \<Rightarrow> None | Some q \<Rightarrow> Some qp2)
      in case BaseClient_get send ''/runs'' qp2 log of
           (Inl e, log') \<Rightarrow> (Inl e, caller_dict, log')
         | (Inr r, log') \<Rightarrow> (Inr (IterableRunsResponse r), caller_dict, log'))"

text \<open>A dict value of an optional argument: \<open>None\<close> when it is not given.\<close>

definition opt_val :: "('a \<Rightarrow> scalar) \<Rightarrow> 'a option \<Rightarrow> pyval" where
  "opt_val mk x = (case x of None \<Rightarrow> PNone | Some a \<Rightarrow> PScalar (mk a))"

text \<open>\<open>{k: v for k, v in d.items() if v is not None}\<close>.\<close>

definition drop_none :: "dict \<Rightarrow> dict" where
  "drop_none d = (\<lambda>k. case d k of Some PNone \<Rightarrow> None | x \<Rightarrow> x)"

text \<open>
  \<open>get_run_logs\<close> builds a new dict from its arguments and \<open>**(query_params or {})\<close>
  and leaves the caller's dict alone. The path is the f-string
  \<open>/runs/{run_id}/log\<close>.
\<close>

definition get_run_logs ::
  "transport \<Rightarrow> scalar \<Rightarrow> int option \<Rightarrow> bool option \<Rightarrow> string option \<Rightarrow> dict option \<Rightarrow>
   request list \<Rightarrow> (error + flows_response) \<times> dict option \<times> request list" where
  "get_run_logs send run_id limit reverse_order marker query_params log =
     (let qp0 = [''limit'' \<mapsto> opt_val SInt limit,
                 ''reverse_order'' \<mapsto> opt_val SBool reverse_order,
                 ''marker'' \<mapsto> opt_val SStr marker]
                ++ (case query_params of None \<Rightarrow> Map.empty | Some q \<Rightarrow> q);
          qp1 = drop_none qp0
      in case BaseClient_get send (''/runs/'' @ py_str run_id @ ''/log'') qp1 log of
           (Inl e, log') \<Rightarrow> (Inl e, query_params, log')
         | (Inr r, log') \<Rightarrow> (Inr (IterableRunLogsResponse r), query_params, log'))"

subsection \<open>The states of a confidential client\<close>

text \<open>
  A \<open>ConfidentialAppAuthClient\<close> is a client its constructor built, in any store and
  with any log, after any number of calls of its methods.
\<close>

inductive confidential_world :: "world \<Rightarrow> bool" where
  constructed:
    "confidential_world
       \<lparr>client = ConfidentialAppAuthClient_init client_id' client_secret,
        flow_managers = managers, http_log = log\<rparr>"
| start_flow:
    "confidential_world w \<Longrightarrow>
     confidential_world (snd (oauth2_start_flow redirect_uri requested_scopes state' refresh_tokens w))"
| get_authorize_url:
    "confidential_world w \<Longrightarrow>
     confidential_world
       (snd (snd (oauth2_get_authorize_url get_url session_required_identities
                    session_required_single_domain session_required_policies prompt query_params w)))"
| exchange_code_for_tokens:
    "confidential_world w \<Longrightarrow>
     confidential_world
       (snd (oauth2_exchange_code_for_tokens
               (exchange :: GlobusAuthorizationCodeFlowManager \<Rightarrow> string \<Rightarrow> request list
                  \<Rightarrow> (error + token_response) \<times> request list)
               auth_code w))"
| token:
    "confidential_world w \<Longrightarrow>
     confidential_world
       (snd (oauth2_token send form_data body_params
               (response_class :: GlobusHTTPResponse \<Rightarrow> token_response) w))"
| refresh_token:
    "confidential_world w \<Longrightarrow>
     confidential_world (snd (oauth2_refresh_token send refresh_token body_params w))"
| validate_token:
    "confidential_world w \<Longrightarrow>
     confidential_world (snd (oauth2_validate_token send token body_params w))"
| revoke_token:
    "confidential_world w \<Longrightarrow>
     confidential_world (snd (oauth2_revoke_token send token body_params w))"
| client_credentials_tokens:
    "confidential_world w \<Longrightarrow>
     confidential_world
       (snd (oauth2_client_credentials_tokens send stringify_requested_scopes requested_scopes w))"
| get_dependent_tokens:
    "confidential_world w \<Longrightarrow>
     confidential_world
       (snd (oauth2_get_dependent_tokens send token refresh_tokens additional_params w))"

section \<open>Properties\<close>

subsection \<open>What the token methods post\<close>

text \<open>
  \<open>oauth2_validate_token\<close> and \<open>oauth2_revoke_token\<close> each append one form-encoded
  POST to the log; its body is the token, the client_id when the client cannot authenticate
  itself and has one, and then the caller's \<open>body_params\<close>.
\<close>

lemma validate_log:
  "http_log (snd (oauth2_validate_token send token body_params w))
     = http_log w @
       [post_request ''/v2/oauth2/token/validate''
          (update_if_truthy
             (case client_id (client w) of
                None \<Rightarrow> [''token'' \<mapsto> PScalar (SStr token)]
              | Some c \<Rightarrow>
                  if is_optional (authorizer (client w)) isinstance_NullAuthorizer \<and> c \<noteq> []
                  then [''token'' \<mapsto> PScalar (SStr token), ''client_id'' \<mapsto> PScalar (SStr c)]
                  else [''token'' \<mapsto> PScalar (SStr token)])
             body_params)
          ''form'']"
  by (simp add: oauth2_validate_token_def BaseClient_post_def Let_def split: prod.splits)

lemma no_authentication_eq:
  "(authorizer (client w) = None
     \<or> (case authorizer (client w) of None \<Rightarrow> False | Some a \<Rightarrow> isinstance_NullAuthorizer a))
   = is_optional (authorizer (client w)) isinstance_NullAuthorizer"
  by (simp add: is_optional_def split: option.splits)

lemma isinstance_NullAuthorizer_iff: "isinstance_NullAuthorizer x = (x = NullAuthorizer)"
  by (cases x) simp_all

lemma is_optional_Null:
  "is_optional a isinstance_NullAuthorizer = (a = None \<or> a = Some NullAuthorizer)"
  by (cases a) (simp_all add: is_optional_def isinstance_NullAuthorizer_iff)

lemma revoke_log:
  "http_log (snd (oauth2_revoke_token send token body_params w))
     = http_log w @
       [post_request ''/v2/oauth2/token/revoke''
          (update_if_truthy
             (case client_id (client w) of
                None \<Rightarrow> [''token'' \<mapsto> PScalar (SStr token)]
              | Some c \<Rightarrow>
                  if is_optional (authorizer (client w)) isinstance_NullAuthorizer \<and> c \<noteq> []
                  then [''token'' \<mapsto> PScalar (SStr token), ''client_id'' \<mapsto> PScalar (SStr c)]
                  else [''token'' \<mapsto> PScalar (SStr token)])
             body_params)
          ''form'']"
  unfolding oauth2_revoke_token_def no_authentication_eq
  by (simp add: BaseClient_post_def Let_def split: prod.splits)

text \<open>
  \<open>oauth2_token\<close> appends one form-encoded POST to \<open>/v2/oauth2/token\<close> and wraps
  the response, when there is one, in the response class.
\<close>

lemma update_if_truthy_Some: "update_if_truthy d (Some m) = d ++ m"
  by (simp add: update_if_truthy_def)

lemma update_if_truthy_None: "update_if_truthy d None = d"
  by (simp add: update_if_truthy_def)

lemma oauth2_token_eq:
  "oauth2_token send form_data body_params response_class w =
     ((case send (http_log w)
              (post_request ''/v2/oauth2/token'' (update_if_truthy form_data body_params) ''form'') of
         Inl e \<Rightarrow> Inl e
       | Inr r \<Rightarrow> Inr (response_class r)),
      w\<lparr>http_log := http_log w @
          [post_request ''/v2/oauth2/token'' (update_if_truthy form_data body_params) ''form'']\<rparr>)"
  by (simp add: oauth2_token_def BaseClient_post_def Let_def split: sum.splits)

subsection \<open>A flow must be started first\<close>

text \<open>
  Claim C1. On a client whose \<open>current_oauth2_flow_manager\<close> is \<open>None\<close>,
  \<open>oauth2_get_authorize_url\<close> and \<open>oauth2_exchange_code_for_tokens\<close> raise a
  \<open>GlobusSDKUsageError\<close>, which is neither a transport error nor an API error, and make
  no HTTP request: the state, and with it the log of requests, is what it was (and a
  \<open>query_params\<close> dict the caller supplied is untouched).
\<close>

theorem usage_error_without_flow:
  assumes "current_oauth2_flow_manager (client w) = None"
  shows "(\<exists>e. fst (oauth2_get_authorize_url g sri srsd srp prompt qp w) = Inl e
             \<and> is_usage_error e \<and> \<not> is_transport_error e \<and> \<not> is_api_error e)
       \<and> snd (oauth2_get_authorize_url g sri srsd srp prompt qp w) = (qp, w)
       \<and> http_log (snd (snd (oauth2_get_authorize_url g sri srsd srp prompt qp w))) = http_log w
       \<and> (\<exists>e. fst (oauth2_exchange_code_for_tokens x auth_code w) = Inl e
             \<and> is_usage_error e \<and> \<not> is_transport_error e \<and> \<not> is_api_error e)
       \<and> snd (oauth2_exchange_code_for_tokens x auth_code w) = w
       \<and> http_log (snd (oauth2_exchange_code_for_tokens x auth_code w)) = http_log w"
proof -
  have a: "oauth2_get_authorize_url g sri srsd srp prompt qp w
        = (Inl (GlobusSDKUsageError
             (''Cannot get authorize URL until starting an OAuth2 flow. ''
              @ ''Call the oauth2_start_flow() method on this ''
              @ ''AuthClient to resolve'')), qp, w)"
    using assms by (simp add: oauth2_get_authorize_url_def)
  have b: "oauth2_exchange_code_for_tokens x auth_code w
        = (Inl (GlobusSDKUsageError
             (''Cannot exchange auth code until starting an OAuth2 flow. ''
              @ ''Call the oauth2_start_flow() method on this ''
              @ ''AuthClient to resolve'')), w)"
    using assms by (simp add: oauth2_exchange_code_for_tokens_def)
  show ?thesis unfolding a b by simp
qed

theorem usage_error_without_flow_witness:
  "current_oauth2_flow_manager (client \<lparr>client = AuthLoginClient_init (Some (SStr ''CID1'')) None,
       flow_managers = [], http_log = []\<rparr>) = None
   \<and> (\<exists>e. fst (oauth2_get_authorize_url (\<lambda>m q. []) None None None None None
          \<lparr>client = AuthLoginClient_init (Some (SStr ''CID1'')) None,
            flow_managers = [], http_log = []\<rparr>) = Inl e \<and> is_usage_error e)
   \<and> http_log (snd (oauth2_exchange_code_for_tokens (\<lambda>m c l. (Inr (), l)) ''code''
          \<lparr>client = AuthLoginClient_init (Some (SStr ''CID1'')) None,
            flow_managers = [], http_log = []\<rparr>)) = []"
proof -
  let ?w = "\<lparr>client = AuthLoginClient_init (Some (SStr ''CID1'')) None,
             flow_managers = [], http_log = []\<rparr>"
  have h: "current_oauth2_flow_manager (client ?w) = None"
    by (simp add: AuthLoginClient_init_def)
  from usage_error_without_flow [OF h, of "\<lambda>m q. []" None None None None None
      "\<lambda>m c l. (Inr (), l)" "''code''"]
  show ?thesis using h by auto
qed

subsection \<open>Starting a flow\<close>




subsection \<open>When the client_id goes into the body\<close>

text \<open>
  Claim C3. With \<open>body_params=None\<close>, \<open>oauth2_validate_token\<close> and
  \<open>oauth2_revoke_token\<close> post a form body that holds the token and the client's
  client_id when the authorizer is \<open>None\<close> or a \<open>NullAuthorizer\<close> and the client_id
  is a non-empty string, and the token alone otherwise; in particular the token alone
  when a real authorizer is present. The two methods post the same body.
\<close>

theorem client_id_inclusion_rule:
  "((authorizer (client w) = None \<or> authorizer (client w) = Some NullAuthorizer)
      \<and> client_id (client w) = Some c \<and> c \<noteq> [] \<longrightarrow>
      http_log (snd (oauth2_validate_token send token None w))
        = http_log w @ [post_request ''/v2/oauth2/token/validate''
            [''token'' \<mapsto> PScalar (SStr token), ''client_id'' \<mapsto> PScalar (SStr c)] ''form'']
      \<and> http_log (snd (oauth2_revoke_token send token None w))
        = http_log w @ [post_request ''/v2/oauth2/token/revoke''
            [''token'' \<mapsto> PScalar (SStr token), ''client_id'' \<mapsto> PScalar (SStr c)] ''form''])
   \<and> (\<not> ((authorizer (client w) = None \<or> authorizer (client w) = Some NullAuthorizer)
           \<and> (\<exists>c. client_id (client w) = Some c \<and> c \<noteq> [])) \<longrightarrow>
      http_log (snd (oauth2_validate_token send token None w))
        = http_log w @ [post_request ''/v2/oauth2/token/validate''
            [''token'' \<mapsto> PScalar (SStr token)] ''form'']
      \<and> http_log (snd (oauth2_revoke_token send token None w))
        = http_log w @ [post_request ''/v2/oauth2/token/revoke''
            [''token'' \<mapsto> PScalar (SStr token)] ''form''])
   \<and> (authorizer (client w) = Some a \<and> \<not> isinstance_NullAuthorizer a \<longrightarrow>
      http_log (snd (oauth2_validate_token send token None w))
        = http_log w @ [post_request ''/v2/oauth2/token/validate''
            [''token'' \<mapsto> PScalar (SStr token)] ''form'']
      \<and> http_log (snd (oauth2_revoke_token send token None w))
        = http_log w @ [post_request ''/v2/oauth2/token/revoke''
            [''token'' \<mapsto> PScalar (SStr token)] ''form''])
   \<and> req_data (last (http_log (snd (oauth2_validate_token send token None w))))
       = req_data (last (http_log (snd (oauth2_revoke_token send token None w))))"
proof -
  have unauth: "is_optional (authorizer (client w)) isinstance_NullAuthorizer
      = (authorizer (client w) = None \<or> authorizer (client w) = Some NullAuthorizer)"
    by (rule is_optional_Null)
  have p1: "(authorizer (client w) = None \<or> authorizer (client w) = Some NullAuthorizer)
      \<and> client_id (client w) = Some c \<and> c \<noteq> [] \<longrightarrow>
      http_log (snd (oauth2_validate_token send token None w))
        = http_log w @ [post_request ''/v2/oauth2/token/validate''
            [''token'' \<mapsto> PScalar (SStr token), ''client_id'' \<mapsto> PScalar (SStr c)] ''form'']
      \<and> http_log (snd (oauth2_revoke_token send token None w))
        = http_log w @ [post_request ''/v2/oauth2/token/revoke''
            [''token'' \<mapsto> PScalar (SStr token), ''client_id'' \<mapsto> PScalar (SStr c)] ''form'']"
    by (simp add: validate_log revoke_log unauth update_if_truthy_def)
  have p2: "\<not> ((authorizer (client w) = None \<or> authorizer (client w) = Some NullAuthorizer)
           \<and> (\<exists>c. client_id (client w) = Some c \<and> c \<noteq> [])) \<longrightarrow>
      http_log (snd (oauth2_validate_token send token None w))
        = http_log w @ [post_request ''/v2/oauth2/token/validate''
            [''token'' \<mapsto> PScalar (SStr token)] ''form'']
      \<and> http_log (snd (oauth2_revoke_token send token None w))
        = http_log w @ [post_request ''/v2/oauth2/token/revoke''
            [''token'' \<mapsto> PScalar (SStr token)] ''form'']"
    by (auto simp add: validate_log revoke_log unauth update_if_truthy_def split: option.splits)
  have p3: "authorizer (client w) = Some a \<and> \<not> isinstance_NullAuthorizer a \<longrightarrow>
      http_log (snd (oauth2_validate_token send token None w))
        = http_log w @ [post_request ''/v2/oauth2/token/validate''
            [''token'' \<mapsto> PScalar (SStr token)] ''form'']
      \<and> http_log (snd (oauth2_revoke_token send token None w))
        = http_log w @ [post_request ''/v2/oauth2/token/revoke''
            [''token'' \<mapsto> PScalar (SStr token)] ''form'']"
    by (auto simp add: validate_log revoke_log is_optional_def update_if_truthy_def
          split: option.splits)
  have p4: "req_data (last (http_log (snd (oauth2_validate_token send token None w))))
       = req_data (last (http_log (snd (oauth2_revoke_token send token None w))))"
    by (simp add: validate_log revoke_log post_request_def)
  from p1 p2 p3 p4 show ?thesis by blast
qed

theorem client_id_inclusion_rule_witness:
  "http_log (snd (oauth2_revoke_token (\<lambda>l r. Inr (GlobusHTTPResponse 200 [])) ''tok123'' None
      \<lparr>client = AuthLoginClient_init (Some (SStr ''CID1'')) None,
        flow_managers = [], http_log = []\<rparr>))
     = [post_request ''/v2/oauth2/token/revoke''
          [''token'' \<mapsto> PScalar (SStr ''tok123''), ''client_id'' \<mapsto> PScalar (SStr ''CID1'')]
          ''form'']
   \<and> http_log (snd (oauth2_revoke_token (\<lambda>l r. Inr (GlobusHTTPResponse 200 [])) ''tok123'' None
      \<lparr>client = AuthLoginClient_init (Some (SStr ''CID1'')) (Some (AccessTokenAuthorizer ''at'')),
        flow_managers = [], http_log = []\<rparr>))
     = [post_request ''/v2/oauth2/token/revoke'' [''token'' \<mapsto> PScalar (SStr ''tok123'')] ''form'']"
proof -
  let ?send = "\<lambda>l r. Inr (GlobusHTTPResponse 200 [])"
  let ?w1 = "\<lparr>client = AuthLoginClient_init (Some (SStr ''CID1'')) None,
        flow_managers = [], http_log = []\<rparr>"
  let ?w2 = "\<lparr>client = AuthLoginClient_init (Some (SStr ''CID1'')) (Some (AccessTokenAuthorizer ''at'')),
        flow_managers = [], http_log = []\<rparr>"
  have h1: "(authorizer (client ?w1) = None \<or> authorizer (client ?w1) = Some NullAuthorizer)
      \<and> client_id (client ?w1) = Some ''CID1'' \<and> ''CID1'' \<noteq> []"
    by (simp add: AuthLoginClient_init_def)
  have h2: "authorizer (client ?w2) = Some (AccessTokenAuthorizer ''at'')
      \<and> \<not> isinstance_NullAuthorizer (AccessTokenAuthorizer ''at'')"
    by (simp add: AuthLoginClient_init_def)
  from client_id_inclusion_rule [of ?w1 "''CID1''" ?send "''tok123''"] h1
  have r1: "http_log (snd (oauth2_revoke_token ?send ''tok123'' None ?w1))
     = http_log ?w1 @ [post_request ''/v2/oauth2/token/revoke''
          [''token'' \<mapsto> PScalar (SStr ''tok123''), ''client_id'' \<mapsto> PScalar (SStr ''CID1'')]
          ''form'']"
    by blast
  from client_id_inclusion_rule [of ?w2 _ ?send "''tok123''" "AccessTokenAuthorizer ''at''"] h2
  have r2: "http_log (snd (oauth2_revoke_token ?send ''tok123'' None ?w2))
     = http_log ?w2 @ [post_request ''/v2/oauth2/token/revoke''
          [''token'' \<mapsto> PScalar (SStr ''tok123'')] ''form'']"
    by blast
  from r1 r2 show ?thesis by simp
qed

subsection \<open>Session requirements are comma-joined the same way in either form\<close>



subsection \<open>What getting the authorize URL leaves alone\<close>

text \<open>
  Claim C5 says that \<open>oauth2_get_authorize_url\<close>, with a flow manager bound, leaves
  every caller-supplied input unmodified, a caller-supplied \<open>query_params\<close> dict in
  particular. The method writes into the dict it is given: called with an empty dict and
  \<open>prompt="login"\<close>, it leaves the caller's dict holding the key \<open>prompt\<close>.
\<close>

theorem authorize_url_writes_caller_dict_counterexample:
  "fst (snd (oauth2_get_authorize_url (\<lambda>m q. ''https://auth.globus.org/v2/oauth2/authorize'')
       None None None (Some ''login'') (Some Map.empty)
       \<lparr>client = \<lparr>client_id = Some ''CID1'', authorizer = None,
                   current_oauth2_flow_manager = Some 0\<rparr>,
         flow_managers = [\<lparr>fm_client_id = Some ''CID1'', fm_redirect_uri = ''https://example.org/cb'',
                            fm_requested_scopes = ''openid'', fm_state = ''_default'',
                            fm_refresh_tokens = False\<rparr>],
         http_log = []\<rparr>))
     = Some [''prompt'' \<mapsto> PScalar (SStr ''login'')]
   \<and> Some [''prompt'' \<mapsto> PScalar (SStr ''login'')] \<noteq> Some (Map.empty :: dict)"
  by (simp add: oauth2_get_authorize_url_def)

text \<open>
  Claim C5, amended. With a flow manager bound, \<open>oauth2_get_authorize_url\<close> makes no
  request and leaves the state (the client with its \<open>current_oauth2_flow_manager\<close>, the
  store of managers, the log) as it was, and returns a URL. When \<open>query_params\<close> is
  \<open>None\<close> nothing of the caller's is written. A \<open>query_params\<close> dict the caller
  supplied is updated in place: each of \<open>session_required_identities\<close>,
  \<open>session_required_single_domain\<close>, \<open>session_required_policies\<close> (comma-joined)
  and \<open>prompt\<close> that is not \<open>None\<close> is stored under its key, every other key keeps
  its entry, and the dict is unmodified when all four are \<open>None\<close>.
\<close>

theorem authorize_url_frame:
  assumes "current_oauth2_flow_manager (client w) = Some r"
  shows "snd (snd (oauth2_get_authorize_url g sri srsd srp prompt qp w)) = w
     \<and> http_log (snd (snd (oauth2_get_authorize_url g sri srsd srp prompt qp w))) = http_log w
     \<and> (\<exists>url. fst (oauth2_get_authorize_url g sri srsd srp prompt qp w) = Inr url)
     \<and> fst (snd (oauth2_get_authorize_url g sri srsd srp prompt None w)) = None
     \<and> (\<exists>q'. fst (snd (oauth2_get_authorize_url g sri srsd srp prompt (Some q) w)) = Some q'
          \<and> (\<forall>k. q' k =
               (if k = ''session_required_identities''
                  then (case sri of None \<Rightarrow> q k | Some v \<Rightarrow> Some (PScalar (SStr (commajoin v))))
                else if k = ''session_required_single_domain''
                  then (case srsd of None \<Rightarrow> q k | Some v \<Rightarrow> Some (PScalar (SStr (commajoin v))))
                else if k = ''session_required_policies''
                  then (case srp of None \<Rightarrow> q k | Some v \<Rightarrow> Some (PScalar (SStr (commajoin v))))
                else if k = ''prompt''
                  then (case prompt of None \<Rightarrow> q k | Some p \<Rightarrow> Some (PScalar (SStr p)))
                else q k)))
     \<and> fst (snd (oauth2_get_authorize_url g None None None None (Some q) w)) = Some q"
proof -
  have a: "snd (snd (oauth2_get_authorize_url g sri srsd srp prompt qp w)) = w"
    using assms by (simp add: oauth2_get_authorize_url_def Let_def)
  have b: "\<exists>url. fst (oauth2_get_authorize_url g sri srsd srp prompt qp w) = Inr url"
    using assms by (simp add: oauth2_get_authorize_url_def Let_def)
  have c: "fst (snd (oauth2_get_authorize_url g sri srsd srp prompt None w)) = None"
    using assms by (simp add: oauth2_get_authorize_url_def Let_def)
  have d: "\<exists>q'. fst (snd (oauth2_get_authorize_url g sri srsd srp prompt (Some q) w)) = Some q'
          \<and> (\<forall>k. q' k =
               (if k = ''session_required_identities''
                  then (case sri of None \<Rightarrow> q k | Some v \<Rightarrow> Some (PScalar (SStr (commajoin v))))
                else if k = ''session_required_single_domain''
                  then (case srsd of None \<Rightarrow> q k | Some v \<Rightarrow> Some (PScalar (SStr (commajoin v))))
                else if k = ''session_required_policies''
                  then (case srp of None \<Rightarrow> q k | Some v \<Rightarrow> Some (PScalar (SStr (commajoin v))))
                else if k = ''prompt''
                  then (case prompt of None \<Rightarrow> q k | Some p \<Rightarrow> Some (PScalar (SStr p)))
                else q k))"
    using assms
    by (cases sri; cases srsd; cases srp; cases prompt)
       (simp_all add: oauth2_get_authorize_url_def Let_def)
  have e: "fst (snd (oauth2_get_authorize_url g None None None None (Some q) w)) = Some q"
    using assms by (simp add: oauth2_get_authorize_url_def Let_def)
  from a b c d e show ?thesis by simp
qed

theorem authorize_url_frame_witness:
  "current_oauth2_flow_manager (client
       \<lparr>client = \<lparr>client_id = Some ''CID1'', authorizer = None,
                   current_oauth2_flow_manager = Some 0\<rparr>,
         flow_managers = [\<lparr>fm_client_id = Some ''CID1'', fm_redirect_uri = ''https://example.org/cb'',
                            fm_requested_scopes = ''openid'', fm_state = ''_default'',
                            fm_refresh_tokens = False\<rparr>],
         http_log = []\<rparr>) = Some 0
   \<and> snd (snd (oauth2_get_authorize_url (\<lambda>m q. ''https://auth.globus.org/v2/oauth2/authorize'')
       (Some (Iterable [SStr ''a'', SStr ''b''])) None None (Some ''login'') (Some Map.empty)
       \<lparr>client = \<lparr>client_id = Some ''CID1'', authorizer = None,
                   current_oauth2_flow_manager = Some 0\<rparr>,
         flow_managers = [\<lparr>fm_client_id = Some ''CID1'', fm_redirect_uri = ''https://example.org/cb'',
                            fm_requested_scopes = ''openid'', fm_state = ''_default'',
                            fm_refresh_tokens = False\<rparr>],
         http_log = []\<rparr>))
     = \<lparr>client = \<lparr>client_id = Some ''CID1'', authorizer = None,
                   current_oauth2_flow_manager = Some 0\<rparr>,
         flow_managers = [\<lparr>fm_client_id = Some ''CID1'', fm_redirect_uri = ''https://example.org/cb'',
                            fm_requested_scopes = ''openid'', fm_state = ''_default'',
                            fm_refresh_tokens = False\<rparr>],
         http_log = []\<rparr>"
proof -
  let ?w = "\<lparr>client = \<lparr>client_id = Some ''CID1'', authorizer = None,
                   current_oauth2_flow_manager = Some 0\<rparr>,
         flow_managers = [\<lparr>fm_client_id = Some ''CID1'', fm_redirect_uri = ''https://example.org/cb'',
                            fm_requested_scopes = ''openid'', fm_state = ''_default'',
                            fm_refresh_tokens = False\<rparr>],
         http_log = []\<rparr>"
  have h: "current_oauth2_flow_manager (client ?w) = Some 0" by simp
  note t = authorize_url_frame [OF h, of "\<lambda>m q. ''https://auth.globus.org/v2/oauth2/authorize''"
      "Some (Iterable [SStr ''a'', SStr ''b''])" None None "Some ''login''" "Some Map.empty"]
  from h conjunct1 [OF t] show ?thesis by simp
qed

subsection \<open>Refreshing a token\<close>

text \<open>
  Claim C6. For every refresh token and every \<open>body_params\<close> dict,
  \<open>oauth2_refresh_token\<close> is \<open>oauth2_token\<close> on the form
  \<open>{refresh_token: <token>, grant_type: "refresh_token"}\<close>: it appends exactly one
  form-encoded POST to \<open>/v2/oauth2/token\<close> whose body is that form updated with
  \<open>body_params\<close>, so that every entry of \<open>body_params\<close> is in the body (one whose key
  is \<open>refresh_token\<close> or \<open>grant_type\<close> overwrites the computed field) and every other
  key is as in the form; the response, when the transport returns one, is wrapped as an
  \<open>OAuthTokenResponse\<close>, and an error of the transport is passed on.
\<close>

theorem refresh_token_request:
  "oauth2_refresh_token send refresh_token (Some body_params) w
     = oauth2_token send
         [''refresh_token'' \<mapsto> PScalar (SStr refresh_token),
          ''grant_type'' \<mapsto> PScalar (SStr ''refresh_token'')]
         (Some body_params) OAuthTokenResponse w
   \<and> http_log (snd (oauth2_refresh_token send refresh_token (Some body_params) w))
       = http_log w @
         [post_request ''/v2/oauth2/token''
            ([''refresh_token'' \<mapsto> PScalar (SStr refresh_token),
              ''grant_type'' \<mapsto> PScalar (SStr ''refresh_token'')] ++ body_params)
            ''form'']
   \<and> (\<forall>k v. body_params k = Some v \<longrightarrow>
         ([''refresh_token'' \<mapsto> PScalar (SStr refresh_token),
           ''grant_type'' \<mapsto> PScalar (SStr ''refresh_token'')] ++ body_params) k = Some v)
   \<and> (\<forall>k. body_params k = None \<longrightarrow>
         ([''refresh_token'' \<mapsto> PScalar (SStr refresh_token),
           ''grant_type'' \<mapsto> PScalar (SStr ''refresh_token'')] ++ body_params) k
         = [''refresh_token'' \<mapsto> PScalar (SStr refresh_token),
            ''grant_type'' \<mapsto> PScalar (SStr ''refresh_token'')] k)
   \<and> fst (oauth2_refresh_token send refresh_token (Some body_params) w)
       = (case send (http_log w)
                 (post_request ''/v2/oauth2/token''
                    ([''refresh_token'' \<mapsto> PScalar (SStr refresh_token),
                      ''grant_type'' \<mapsto> PScalar (SStr ''refresh_token'')] ++ body_params)
                    ''form'') of
            Inl e \<Rightarrow> Inl e
          | Inr r \<Rightarrow> Inr (OAuthTokenResponse r))
   \<and> client (snd (oauth2_refresh_token send refresh_token (Some body_params) w)) = client w
   \<and> flow_managers (snd (oauth2_refresh_token send refresh_token (Some body_params) w))
       = flow_managers w"
proof -
  let ?form = "[''refresh_token'' \<mapsto> PScalar (SStr refresh_token),
                ''grant_type'' \<mapsto> PScalar (SStr ''refresh_token'')]"
  have a: "oauth2_refresh_token send refresh_token (Some body_params) w
      = oauth2_token send ?form (Some body_params) OAuthTokenResponse w"
    by (simp add: oauth2_refresh_token_def)
  have b: "\<forall>k v. body_params k = Some v \<longrightarrow> (?form ++ body_params) k = Some v"
    by (simp add: map_add_def)
  have c: "\<forall>k. body_params k = None \<longrightarrow> (?form ++ body_params) k = ?form k"
    by (simp add: map_add_def)
  show ?thesis
    unfolding a oauth2_token_eq update_if_truthy_Some using b c by simp
qed

theorem refresh_token_request_witness:
  "http_log (snd (oauth2_refresh_token (\<lambda>l r. Inr (GlobusHTTPResponse 200 [])) ''RT1''
       (Some [''grant_type'' \<mapsto> PScalar (SStr ''other''), ''extra'' \<mapsto> PScalar (SStr ''1'')])
       \<lparr>client = AuthLoginClient_init (Some (SStr ''CID1'')) None,
         flow_managers = [], http_log = []\<rparr>))
     = [post_request ''/v2/oauth2/token''
          [''refresh_token'' \<mapsto> PScalar (SStr ''RT1''),
           ''grant_type'' \<mapsto> PScalar (SStr ''other''),
           ''extra'' \<mapsto> PScalar (SStr ''1'')]
          ''form'']
   \<and> fst (oauth2_refresh_token (\<lambda>l r. Inr (GlobusHTTPResponse 200 [])) ''RT1''
       (Some [''grant_type'' \<mapsto> PScalar (SStr ''other''), ''extra'' \<mapsto> PScalar (SStr ''1'')])
       \<lparr>client = AuthLoginClient_init (Some (SStr ''CID1'')) None,
         flow_managers = [], http_log = []\<rparr>)
     = Inr (OAuthTokenResponse (GlobusHTTPResponse 200 []))"
proof -
  let ?send = "\<lambda>l r. Inr (GlobusHTTPResponse 200 [])"
  let ?bp = "[''grant_type'' \<mapsto> PScalar (SStr ''other''), ''extra'' \<mapsto> PScalar (SStr ''1'')]"
  let ?w = "\<lparr>client = AuthLoginClient_init (Some (SStr ''CID1'')) None,
             flow_managers = [], http_log = []\<rparr>"
  note t = refresh_token_request [of ?send "''RT1''" ?bp ?w]
  have l: "http_log (snd (oauth2_refresh_token ?send ''RT1'' (Some ?bp) ?w))
       = http_log ?w @
         [post_request ''/v2/oauth2/token''
            ([''refresh_token'' \<mapsto> PScalar (SStr ''RT1''),
              ''grant_type'' \<mapsto> PScalar (SStr ''refresh_token'')] ++ ?bp)
            ''form'']"
    by (rule conjunct1 [OF conjunct2 [OF t]])
  have f: "fst (oauth2_refresh_token ?send ''RT1'' (Some ?bp) ?w)
       = (case ?send (http_log ?w)
                 (post_request ''/v2/oauth2/token''
                    ([''refresh_token'' \<mapsto> PScalar (SStr ''RT1''),
                      ''grant_type'' \<mapsto> PScalar (SStr ''refresh_token'')] ++ ?bp)
                    ''form'') of
            Inl e \<Rightarrow> Inl e
          | Inr r \<Rightarrow> Inr (OAuthTokenResponse r))"
    by (rule conjunct1 [OF conjunct2 [OF conjunct2 [OF conjunct2 [OF conjunct2 [OF t]]]]])
  show ?thesis unfolding l f by simp
qed

subsection \<open>Dependent tokens and client credentials\<close>



subsection \<open>The marker of a listing\<close>

text \<open>
  Claim C8. With \<open>query_params=None\<close>, each of \<open>list_flows\<close>, \<open>list_runs\<close> and
  \<open>get_run_logs\<close> appends one GET to the log, and the query parameters of that request
  hold under \<open>marker\<close> exactly the caller's marker when one is given, and have no
  \<open>marker\<close> key when the marker is \<open>None\<close>.
\<close>

theorem marker_is_echoed:
  "(\<exists>qp. snd (snd (list_flows send filter_role filter_fulltext order_by marker None log))
            = log @ [get_request ''/flows'' qp]
         \<and> qp ''marker'' = (case marker of None \<Rightarrow> None | Some m \<Rightarrow> Some (PScalar (SStr m))))
   \<and> (\<exists>qp. snd (snd (list_runs send filter_flow_id marker None log))
            = log @ [get_request ''/runs'' qp]
         \<and> qp ''marker'' = (case marker of None \<Rightarrow> None | Some m \<Rightarrow> Some (PScalar (SStr m))))
   \<and> (\<exists>qp. snd (snd (get_run_logs send run_id limit reverse_order marker None log))
            = log @ [get_request (''/runs/'' @ py_str run_id @ ''/log'') qp]
         \<and> qp ''marker'' = (case marker of None \<Rightarrow> None | Some m \<Rightarrow> Some (PScalar (SStr m))))"
proof -
  have f: "\<exists>qp. snd (snd (list_flows send filter_role filter_fulltext order_by marker None log))
            = log @ [get_request ''/flows'' qp]
         \<and> qp ''marker'' = (case marker of None \<Rightarrow> None | Some m \<Rightarrow> Some (PScalar (SStr m)))"
    by (cases filter_role; cases filter_fulltext; cases order_by; cases marker)
       (auto simp add: list_flows_def BaseClient_get_def Let_def split: sum.splits orderby.splits)
  have r: "\<exists>qp. snd (snd (list_runs send filter_flow_id marker None log))
            = log @ [get_request ''/runs'' qp]
         \<and> qp ''marker'' = (case marker of None \<Rightarrow> None | Some m \<Rightarrow> Some (PScalar (SStr m)))"
    by (cases filter_flow_id; cases marker)
       (auto simp add: list_runs_def BaseClient_get_def Let_def split: sum.splits)
  have l: "\<exists>qp. snd (snd (get_run_logs send run_id limit reverse_order marker None log))
            = log @ [get_request (''/runs/'' @ py_str run_id @ ''/log'') qp]
         \<and> qp ''marker'' = (case marker of None \<Rightarrow> None | Some m \<Rightarrow> Some (PScalar (SStr m)))"
    by (cases marker)
       (auto simp add: get_run_logs_def BaseClient_get_def Let_def drop_none_def opt_val_def
             split: sum.splits)
  from f r l show ?thesis by blast
qed

theorem marker_is_echoed_witness:
  "req_query_params (last (snd (snd
       (list_runs (\<lambda>l r. Inr (GlobusHTTPResponse 200 [])) None (Some ''m1'') None []))))
       ''marker'' = Some (PScalar (SStr ''m1''))
   \<and> req_query_params (last (snd (snd
       (get_run_logs (\<lambda>l r. Inr (GlobusHTTPResponse 200 [])) (SStr ''run1'') (Some 5) None None
          None [])))) ''marker'' = None"
proof -
  let ?send = "\<lambda>l r. Inr (GlobusHTTPResponse 200 [])"
  from marker_is_echoed [of ?send None None None "Some ''m1''" "[]" None "SStr ''run1''" None None]
  obtain qp where a: "snd (snd (list_runs ?send None (Some ''m1'') None [])) = [] @ [get_request ''/runs'' qp]"
    and b: "qp ''marker'' = Some (PScalar (SStr ''m1''))"
    by auto
  from marker_is_echoed [of ?send None None None None "[]" None "SStr ''run1''" "Some 5" None]
  obtain qp' where c: "snd (snd (get_run_logs ?send (SStr ''run1'') (Some 5) None None None []))
        = [] @ [get_request (''/runs/'' @ py_str (SStr ''run1'') @ ''/log'') qp']"
    and d: "qp' ''marker'' = None"
    by auto
  show ?thesis unfolding a c using b d by (simp add: get_request_def)
qed

subsection \<open>The optional setters of a payload\<close>

text \<open>
  The loop of a setter leaves alone every key that no keyword argument gives a value
  other than \<open>None\<close>, whether the call returns or raises. When the keywords are
  distinct and the callback converts every value given, the call returns, and the dict it
  leaves is the old one with each converted value stored under its keyword.
\<close>

lemma set_each_untouched:
  "\<forall>v. (k, Some v) \<notin> set kwargs \<Longrightarrow> snd (set_each callback kwargs d) k = d k"
proof (induction kwargs arbitrary: d)
  case Nil
  then show ?case by simp
next
  case (Cons kv kwargs)
  obtain k' v' where kv: "kv = (k', v')" by (cases kv)
  from Cons.prems kv have rest: "\<forall>v. (k, Some v) \<notin> set kwargs" by auto
  show ?case
  proof (cases v')
    case None
    with kv Cons.IH [OF rest] show ?thesis by (simp add: set_value_def)
  next
    case (Some a)
    with Cons.prems kv have ne: "k' \<noteq> k" by auto
    show ?thesis
    proof (cases "callback a")
      case (Inl e)
      with kv Some show ?thesis by (simp add: set_value_def)
    next
      case (Inr c)
      have "snd (set_each callback kwargs (d(k' \<mapsto> c))) k = (d(k' \<mapsto> c)) k"
        by (rule Cons.IH [OF rest])
      also have "\<dots> = d k" using ne by simp
      finally have "snd (set_each callback kwargs (d(k' \<mapsto> c))) k = d k" .
      with kv Some Inr show ?thesis
        by (simp add: set_value_def)
    qed
  qed
qed

lemma set_each_success:
  assumes "distinct (map fst kwargs)"
    and "\<forall>k v. (k, Some v) \<in> set kwargs \<longrightarrow> (\<exists>c. callback v = Inr c)"
  shows "set_each callback kwargs d =
           (Inr (),
            \<lambda>k. case map_of kwargs k of
                   Some (Some v) \<Rightarrow> (case callback v of Inr c \<Rightarrow> Some c | Inl e \<Rightarrow> d k)
                 | _ \<Rightarrow> d k)"
  using assms
proof (induction kwargs arbitrary: d)
  case Nil
  then show ?case by simp
next
  case (Cons kv kwargs)
  obtain k' v' where kv: "kv = (k', v')" by (cases kv)
  from Cons.prems kv have dist: "distinct (map fst kwargs)"
    and fresh: "map_of kwargs k' = None"
    and conv: "\<forall>k v. (k, Some v) \<in> set kwargs \<longrightarrow> (\<exists>c. callback v = Inr c)"
    by (auto simp add: map_of_eq_None_iff)
  note IH = Cons.IH [OF dist conv]
  show ?case
  proof (cases v')
    case None
    with kv have "set_each callback (kv # kwargs) d = set_each callback kwargs d"
      by (simp add: set_value_def)
    also have "\<dots> =
        (Inr (),
         \<lambda>k. case map_of kwargs k of
                Some (Some v) \<Rightarrow> (case callback v of Inr c \<Rightarrow> Some c | Inl e \<Rightarrow> d k)
              | _ \<Rightarrow> d k)"
      by (rule IH)
    also have "\<dots> =
        (Inr (),
         \<lambda>k. case map_of (kv # kwargs) k of
                Some (Some v) \<Rightarrow> (case callback v of Inr c \<Rightarrow> Some c | Inl e \<Rightarrow> d k)
              | _ \<Rightarrow> d k)"
      using kv None fresh by (auto simp add: fun_eq_iff)
    finally show ?thesis .
  next
    case (Some a)
    with kv have "(k', Some a) \<in> set (kv # kwargs)" by simp
    with Cons.prems(2) obtain c where c: "callback a = Inr c" by blast
    with kv Some have "set_each callback (kv # kwargs) d = set_each callback kwargs (d(k' \<mapsto> c))"
      by (simp add: set_value_def)
    also have "\<dots> =
        (Inr (),
         \<lambda>k. case map_of kwargs k of
                Some (Some v) \<Rightarrow> (case callback v of Inr x \<Rightarrow> Some x | Inl e \<Rightarrow> (d(k' \<mapsto> c)) k)
              | _ \<Rightarrow> (d(k' \<mapsto> c)) k)"
      by (rule IH)
    also have "\<dots> =
        (Inr (),
         \<lambda>k. case map_of (kv # kwargs) k of
                Some (Some v) \<Rightarrow> (case callback v of Inr x \<Rightarrow> Some x | Inl e \<Rightarrow> d k)
              | _ \<Rightarrow> d k)"
      using kv Some c fresh conv
      by (auto simp add: fun_eq_iff map_of_SomeD split: option.splits sum.splits
               dest!: map_of_SomeD)
    finally show ?thesis .
  qed
qed

text \<open>
  A conversion that raises ends the call with that exception. When the keywords are
  distinct, the value it was raised on is not stored; and when it is the first to fail, the
  dict is left as the call on the keywords before it leaves it.
\<close>

lemma set_each_raises:
  assumes "distinct (map fst kwargs)"
    and "(k, Some v) \<in> set kwargs"
    and "callback v = Inl e"
  shows "(\<exists>e'. fst (set_each callback kwargs d) = Inl e')
       \<and> snd (set_each callback kwargs d) k = d k"
  using assms
proof (induction kwargs arbitrary: d)
  case Nil
  then show ?case by simp
next
  case (Cons kv kwargs)
  obtain k' v' where kv: "kv = (k', v')" by (cases kv)
  show ?case
  proof (cases "kv = (k, Some v)")
    case True
    with Cons.prems(3) show ?thesis by (simp add: set_value_def)
  next
    case False
    with Cons.prems(2) have mem: "(k, Some v) \<in> set kwargs" by simp
    from Cons.prems(1) kv have dist: "distinct (map fst kwargs)" by simp
    from Cons.prems(1) kv mem have ne: "k' \<noteq> k" by force
    note IH = Cons.IH [OF dist mem Cons.prems(3)]
    show ?thesis
    proof (cases v')
      case None
      with kv have "set_each callback (kv # kwargs) d = set_each callback kwargs d"
        by (simp add: set_value_def)
      with IH [of d] show ?thesis by simp
    next
      case (Some a)
      show ?thesis
      proof (cases "callback a")
        case (Inl e2)
        with kv Some show ?thesis by (simp add: set_value_def)
      next
        case (Inr c)
        with kv Some
        have step: "set_each callback (kv # kwargs) d = set_each callback kwargs (d(k' \<mapsto> c))"
          by (simp add: set_value_def)
        note ih = IH [of "d(k' \<mapsto> c)"]
        from ih have raised: "\<exists>e'. fst (set_each callback kwargs (d(k' \<mapsto> c))) = Inl e'"
          by (rule conjunct1)
        from ih have "snd (set_each callback kwargs (d(k' \<mapsto> c))) k = (d(k' \<mapsto> c)) k"
          by (rule conjunct2)
        also have "\<dots> = d k" using ne by simp
        finally have kept: "snd (set_each callback kwargs (d(k' \<mapsto> c))) k = d k" .
        show ?thesis unfolding step by (intro conjI) (rule raised, rule kept)
      qed
    qed
  qed
qed

lemma set_each_first_failure:
  assumes "\<forall>k' v'. (k', Some v') \<in> set pre \<longrightarrow> (\<exists>c. callback v' = Inr c)"
    and "callback v = Inl e"
  shows "set_each callback (pre @ (k, Some v) # post) d
           = (Inl e, snd (set_each callback pre d))"
  using assms(1)
proof (induction pre arbitrary: d)
  case Nil
  from assms(2) show ?case by (simp add: set_value_def)
next
  case (Cons kv pre)
  obtain k' v' where kv: "kv = (k', v')" by (cases kv)
  from Cons.prems
  have conv: "\<forall>k' v'. (k', Some v') \<in> set pre \<longrightarrow> (\<exists>c. callback v' = Inr c)"
    by simp
  note IH = Cons.IH [OF conv]
  show ?case
  proof (cases v')
    case None
    with kv have a: "set_each callback ((kv # pre) @ (k, Some v) # post) d
          = set_each callback (pre @ (k, Some v) # post) d"
      and b: "set_each callback (kv # pre) d = set_each callback pre d"
      by (simp_all add: set_value_def)
    show ?thesis unfolding a b by (rule IH)
  next
    case (Some a)
    with kv have "(k', Some a) \<in> set (kv # pre)" by simp
    with Cons.prems obtain c where c: "callback a = Inr c" by blast
    with kv Some have a: "set_each callback ((kv # pre) @ (k, Some v) # post) d
          = set_each callback (pre @ (k, Some v) # post) (d(k' \<mapsto> c))"
      and b: "set_each callback (kv # pre) d = set_each callback pre (d(k' \<mapsto> c))"
      by (simp_all add: set_value_def)
    show ?thesis unfolding a b by (rule IH)
  qed
qed

text \<open>
  Claim C9 says that in every call of \<open>_set_optstrs\<close>, \<open>_set_optstrlists\<close>,
  \<open>_set_optbools\<close> or \<open>_set_optints\<close> each value that is not \<open>None\<close> is stored
  under its key after conversion. \<open>_set_optints(limit="abc")\<close> stores nothing:
  \<open>int("abc")\<close> raises \<open>ValueError\<close>, whatever \<open>int\<close> makes of other strings, and
  the exception leaves the setter before the assignment.
\<close>

theorem int_setter_raises_counterexample:
  "set_optints (\<lambda>s. Inr 0) [(''limit'', Some (SStr ''abc''))] Map.empty
     = (Inl ValueError, Map.empty)
   \<and> snd (set_optints (\<lambda>s. Inr 0) [(''limit'', Some (SStr ''abc''))] Map.empty) ''limit'' = None"
  by (simp add: set_optints_def set_value_def int_callback_def only_letters_def)

text \<open>
  Claim C9, amended. In a call of \<open>_set_optstrs\<close>, \<open>_set_optstrlists\<close>,
  \<open>_set_optbools\<close> or \<open>_set_optints\<close> (the keyword arguments of a call are distinct), a
  keyword whose value is \<open>None\<close> leaves the dict's entry for that key as it was, present
  or absent, and no key that is not a keyword is changed. With \<open>str\<close>,
  \<open>list(safe_strseq_iter(x))\<close> and \<open>bool\<close>, which convert every value, the call returns
  and each value that is not \<open>None\<close> is stored under its keyword after conversion. With
  \<open>int\<close> the same holds whenever \<open>int\<close> converts each value given; the keys without a
  value are left alone also when it does not. When \<open>int\<close> raises on a value, the call
  raises and that value is not stored: the entry for its key is as it was. The exception
  that leaves the setter is the one \<open>int\<close> raised on the first value it does not
  convert, the keywords before that one are stored as by a call on them alone, and those
  from it on are not stored.
\<close>

theorem payload_setters_frame:
  assumes "distinct (map fst strs)" and "distinct (map fst strlists)"
    and "distinct (map fst bools)" and "distinct (map fst ints)"
  shows "set_optstrs strs d =
           (Inr (),
            \<lambda>k. case map_of strs k of
                   Some (Some v) \<Rightarrow> Some (PScalar (SStr (py_str v)))
                 | _ \<Rightarrow> d k)
       \<and> set_optstrlists strlists d =
           (Inr (),
            \<lambda>k. case map_of strlists k of
                   Some (Some x) \<Rightarrow> Some (PList (map SStr (safe_strseq_iter x)))
                 | _ \<Rightarrow> d k)
       \<and> set_optbools bools d =
           (Inr (),
            \<lambda>k. case map_of bools k of
                   Some (Some b) \<Rightarrow> Some (PScalar (SBool b))
                 | _ \<Rightarrow> d k)
       \<and> (\<forall>k. (\<forall>v. (k, Some v) \<notin> set ints) \<longrightarrow> snd (set_optints int_of_str ints d) k = d k)
       \<and> ((\<forall>k v. (k, Some v) \<in> set ints \<longrightarrow> (\<exists>i. py_int int_of_str v = Inr i)) \<longrightarrow>
           fst (set_optints int_of_str ints d) = Inr ()
           \<and> (\<forall>k v i. (k, Some v) \<in> set ints \<and> py_int int_of_str v = Inr i \<longrightarrow>
                 snd (set_optints int_of_str ints d) k = Some (PScalar (SInt i))))
       \<and> (\<forall>k v e. (k, Some v) \<in> set ints \<and> py_int int_of_str v = Inl e \<longrightarrow>
             (\<exists>e'. fst (set_optints int_of_str ints d) = Inl e')
             \<and> snd (set_optints int_of_str ints d) k = d k)
       \<and> (\<forall>pre k v post e.
             ints = pre @ (k, Some v) # post
             \<and> (\<forall>k' v'. (k', Some v') \<in> set pre \<longrightarrow> (\<exists>i. py_int int_of_str v' = Inr i))
             \<and> py_int int_of_str v = Inl e \<longrightarrow>
             set_optints int_of_str ints d = (Inl e, snd (set_optints int_of_str pre d)))"
proof -
  have s: "set_optstrs strs d =
           (Inr (),
            \<lambda>k. case map_of strs k of
                   Some (Some v) \<Rightarrow> Some (PScalar (SStr (py_str v)))
                 | _ \<Rightarrow> d k)"
    unfolding set_optstrs_def
    by (subst set_each_success [OF assms(1)]) (simp_all add: fun_eq_iff split: option.splits)
  have l: "set_optstrlists strlists d =
           (Inr (),
            \<lambda>k. case map_of strlists k of
                   Some (Some x) \<Rightarrow> Some (PList (map SStr (safe_strseq_iter x)))
                 | _ \<Rightarrow> d k)"
    unfolding set_optstrlists_def
    by (subst set_each_success [OF assms(2)]) (simp_all add: fun_eq_iff split: option.splits)
  have b: "set_optbools bools d =
           (Inr (),
            \<lambda>k. case map_of bools k of
                   Some (Some b) \<Rightarrow> Some (PScalar (SBool b))
                 | _ \<Rightarrow> d k)"
    unfolding set_optbools_def
    by (subst set_each_success [OF assms(3)]) (simp_all add: fun_eq_iff split: option.splits)
  have i1: "\<forall>k. (\<forall>v. (k, Some v) \<notin> set ints) \<longrightarrow> snd (set_optints int_of_str ints d) k = d k"
    unfolding set_optints_def by (simp add: set_each_untouched)
  have i2: "fst (set_optints int_of_str ints d) = Inr ()
           \<and> (\<forall>k v i. (k, Some v) \<in> set ints \<and> py_int int_of_str v = Inr i \<longrightarrow>
                 snd (set_optints int_of_str ints d) k = Some (PScalar (SInt i)))"
    if conv: "\<forall>k v. (k, Some v) \<in> set ints \<longrightarrow> (\<exists>i. py_int int_of_str v = Inr i)"
  proof -
    have conv': "\<forall>k v. (k, Some v) \<in> set ints \<longrightarrow> (\<exists>c. int_callback int_of_str v = Inr c)"
    proof (intro allI impI)
      fix k v
      assume "(k, Some v) \<in> set ints"
      with conv obtain i where "py_int int_of_str v = Inr i" by blast
      then show "\<exists>c. int_callback int_of_str v = Inr c"
        by (simp add: int_callback_def)
    qed
    have stored: "snd (set_optints int_of_str ints d) k = Some (PScalar (SInt i))"
      if "(k, Some v) \<in> set ints" and "py_int int_of_str v = Inr i" for k v i
    proof -
      from that(1) assms(4) have "map_of ints k = Some (Some v)" by simp
      with that(2) show ?thesis
        unfolding set_optints_def set_each_success [OF assms(4) conv']
        by (simp add: int_callback_def)
    qed
    have "fst (set_optints int_of_str ints d) = Inr ()"
      unfolding set_optints_def set_each_success [OF assms(4) conv'] by simp
    with stored show ?thesis by blast
  qed
  have i3: "\<forall>k v e. (k, Some v) \<in> set ints \<and> py_int int_of_str v = Inl e \<longrightarrow>
             (\<exists>e'. fst (set_optints int_of_str ints d) = Inl e')
             \<and> snd (set_optints int_of_str ints d) k = d k"
  proof (intro allI impI)
    fix k v e
    assume a: "(k, Some v) \<in> set ints \<and> py_int int_of_str v = Inl e"
    then have "int_callback int_of_str v = Inl e" by (simp add: int_callback_def)
    with a set_each_raises [OF assms(4), of k v "int_callback int_of_str" e d]
    show "(\<exists>e'. fst (set_optints int_of_str ints d) = Inl e')
             \<and> snd (set_optints int_of_str ints d) k = d k"
      unfolding set_optints_def by blast
  qed
  have i4: "\<forall>pre k v post e.
             ints = pre @ (k, Some v) # post
             \<and> (\<forall>k' v'. (k', Some v') \<in> set pre \<longrightarrow> (\<exists>i. py_int int_of_str v' = Inr i))
             \<and> py_int int_of_str v = Inl e \<longrightarrow>
             set_optints int_of_str ints d = (Inl e, snd (set_optints int_of_str pre d))"
  proof (intro allI impI)
    fix pre k v post e
    assume a: "ints = pre @ (k, Some v) # post
             \<and> (\<forall>k' v'. (k', Some v') \<in> set pre \<longrightarrow> (\<exists>i. py_int int_of_str v' = Inr i))
             \<and> py_int int_of_str v = Inl e"
    then have fail: "int_callback int_of_str v = Inl e" by (simp add: int_callback_def)
    have conv: "\<forall>k' v'. (k', Some v') \<in> set pre \<longrightarrow> (\<exists>c. int_callback int_of_str v' = Inr c)"
    proof (intro allI impI)
      fix k' v'
      assume "(k', Some v') \<in> set pre"
      with a obtain i where "py_int int_of_str v' = Inr i" by blast
      then show "\<exists>c. int_callback int_of_str v' = Inr c" by (simp add: int_callback_def)
    qed
    from a have split: "ints = pre @ (k, Some v) # post" by simp
    show "set_optints int_of_str ints d = (Inl e, snd (set_optints int_of_str pre d))"
      unfolding set_optints_def split by (rule set_each_first_failure [OF conv fail])
  qed
  from s l b i1 i2 i3 i4 show ?thesis by blast
qed

theorem payload_setters_frame_witness:
  "distinct (map fst [(''title'', Some (SStr ''T'')), (''subtitle'', None :: scalar option)])
   \<and> distinct (map fst [(''ids'', Some (Iterable [SStr ''a'', SInt 7]))])
   \<and> distinct (map fst [(''flag'', Some True)])
   \<and> distinct (map fst [(''limit'', Some (SInt 5)), (''offset'', None)])
   \<and> snd (set_optstrs [(''title'', Some (SStr ''T'')), (''subtitle'', None)]
          [''subtitle'' \<mapsto> PScalar (SStr ''old'')]) ''title'' = Some (PScalar (SStr ''T''))
   \<and> snd (set_optstrs [(''title'', Some (SStr ''T'')), (''subtitle'', None)]
          [''subtitle'' \<mapsto> PScalar (SStr ''old'')]) ''subtitle'' = Some (PScalar (SStr ''old''))
   \<and> snd (set_optstrlists [(''ids'', Some (Iterable [SStr ''a'', SInt 7]))]
          [''subtitle'' \<mapsto> PScalar (SStr ''old'')]) ''ids'' = Some (PList [SStr ''a'', SStr ''7''])
   \<and> snd (set_optints (\<lambda>s. Inl ValueError) [(''limit'', Some (SInt 5)), (''offset'', None)]
          [''subtitle'' \<mapsto> PScalar (SStr ''old'')]) ''limit'' = Some (PScalar (SInt 5))
   \<and> snd (set_optints (\<lambda>s. Inl ValueError) [(''limit'', Some (SInt 5)), (''offset'', None)]
          [''subtitle'' \<mapsto> PScalar (SStr ''old'')]) ''offset'' = None
   \<and> distinct (map fst [(''limit'', Some (SInt 5)), (''offset'', Some (SStr ''abc''))])
   \<and> fst (set_optints (\<lambda>s. Inl ValueError)
          [(''limit'', Some (SInt 5)), (''offset'', Some (SStr ''abc''))]
          [''subtitle'' \<mapsto> PScalar (SStr ''old'')]) = Inl ValueError
   \<and> snd (set_optints (\<lambda>s. Inl ValueError)
          [(''limit'', Some (SInt 5)), (''offset'', Some (SStr ''abc''))]
          [''subtitle'' \<mapsto> PScalar (SStr ''old'')]) ''offset'' = None"
proof -
  let ?strs = "[(''title'', Some (SStr ''T'')), (''subtitle'', None :: scalar option)]"
  let ?strlists = "[(''ids'', Some (Iterable [SStr ''a'', SInt 7]))]"
  let ?bools = "[(''flag'', Some True)]"
  let ?ints = "[(''limit'', Some (SInt 5)), (''offset'', None)]"
  let ?d = "[''subtitle'' \<mapsto> PScalar (SStr ''old'')]"
  let ?p = "\<lambda>s. Inl ValueError :: error + int"
  have h1: "distinct (map fst ?strs)" by simp
  have h2: "distinct (map fst ?strlists)" by simp
  have h3: "distinct (map fst ?bools)" by simp
  have h4: "distinct (map fst ?ints)" by simp
  have h5: "\<forall>k v. (k, Some v) \<in> set ?ints \<longrightarrow> (\<exists>i. py_int ?p v = Inr i)" by simp
  note t = payload_setters_frame [OF h1 h2 h3 h4, of ?d ?p]
  from t have s: "set_optstrs ?strs ?d =
           (Inr (),
            \<lambda>k. case map_of ?strs k of
                   Some (Some v) \<Rightarrow> Some (PScalar (SStr (py_str v)))
                 | _ \<Rightarrow> ?d k)"
    by (rule conjunct1)
  from t have l: "set_optstrlists ?strlists ?d =
           (Inr (),
            \<lambda>k. case map_of ?strlists k of
                   Some (Some x) \<Rightarrow> Some (PList (map SStr (safe_strseq_iter x)))
                 | _ \<Rightarrow> ?d k)"
    by blast
  from t h5 have i: "\<forall>k v i. (k, Some v) \<in> set ?ints \<and> py_int ?p v = Inr i \<longrightarrow>
                 snd (set_optints ?p ?ints ?d) k = Some (PScalar (SInt i))"
    by blast
  from t have u: "\<forall>k. (\<forall>v. (k, Some v) \<notin> set ?ints) \<longrightarrow> snd (set_optints ?p ?ints ?d) k = ?d k"
    by blast
  have i': "snd (set_optints ?p ?ints ?d) ''limit'' = Some (PScalar (SInt 5))"
    using i by simp
  have u': "snd (set_optints ?p ?ints ?d) ''offset'' = None"
    using u by simp
  let ?bad = "[(''limit'', Some (SInt 5)), (''offset'', Some (SStr ''abc''))]"
  have h6: "distinct (map fst ?bad)" by simp
  have abc: "py_int ?p (SStr ''abc'') = Inl ValueError" by simp
  note t' = payload_setters_frame [OF h1 h2 h3 h6, of ?d ?p]
  from t' have f: "\<forall>pre k v post e.
             ?bad = pre @ (k, Some v) # post
             \<and> (\<forall>k' v'. (k', Some v') \<in> set pre \<longrightarrow> (\<exists>i. py_int ?p v' = Inr i))
             \<and> py_int ?p v = Inl e \<longrightarrow>
             set_optints ?p ?bad ?d = (Inl e, snd (set_optints ?p pre ?d))"
    by blast
  have "?bad = [(''limit'', Some (SInt 5))] @ (''offset'', Some (SStr ''abc'')) # []
      \<and> (\<forall>k' v'. (k', Some v') \<in> set [(''limit'', Some (SInt 5))]
            \<longrightarrow> (\<exists>i. py_int ?p v' = Inr i))
      \<and> py_int ?p (SStr ''abc'') = Inl ValueError"
    by simp
  with f have "set_optints ?p ?bad ?d
      = (Inl ValueError, snd (set_optints ?p [(''limit'', Some (SInt 5))] ?d))"
    by blast
  then have r1: "fst (set_optints ?p ?bad ?d) = Inl ValueError" by simp
  from t' have n: "\<forall>k v e. (k, Some v) \<in> set ?bad \<and> py_int ?p v = Inl e \<longrightarrow>
             (\<exists>e'. fst (set_optints ?p ?bad ?d) = Inl e')
             \<and> snd (set_optints ?p ?bad ?d) k = ?d k"
    by blast
  have "(''offset'', Some (SStr ''abc'')) \<in> set ?bad \<and> py_int ?p (SStr ''abc'') = Inl ValueError"
    by simp
  with n have "snd (set_optints ?p ?bad ?d) ''offset'' = ?d ''offset''" by blast
  then have r2: "snd (set_optints ?p ?bad ?d) ''offset'' = None" by simp
  have seven: "int_str 7 = ''7''" by code_simp
  show ?thesis unfolding s l using i' u' r1 r2 seven by simp
qed

subsection \<open>A confidential client always authenticates itself\<close>

text \<open>
  No method changes the client's identity or its authorizer, so every state of a
  confidential client has the \<open>BasicAuthorizer\<close> its constructor built.
\<close>

lemma client_unchanged:
  "client (snd (snd (oauth2_get_authorize_url g a b c p q w))) = client w"
  "client (snd (oauth2_exchange_code_for_tokens x code w)) = client w"
  "client (snd (oauth2_token send fd bp rc w)) = client w"
  "client (snd (oauth2_refresh_token send rt bp w)) = client w"
  "client (snd (oauth2_validate_token send tok bp w)) = client w"
  "client (snd (oauth2_revoke_token send tok bp w)) = client w"
  "client (snd (oauth2_client_credentials_tokens send str scopes w)) = client w"
  "client (snd (oauth2_get_dependent_tokens send tok r ap w)) = client w"
  by (simp_all add: oauth2_get_authorize_url_def oauth2_exchange_code_for_tokens_def
        oauth2_token_eq oauth2_refresh_token_def oauth2_validate_token_def
        oauth2_revoke_token_def oauth2_client_credentials_tokens_def
        oauth2_get_dependent_tokens_def Let_def
        split: option.splits prod.splits)

lemma start_flow_identity:
  "client_id (client (snd (oauth2_start_flow uri scopes st r w))) = client_id (client w)"
  "authorizer (client (snd (oauth2_start_flow uri scopes st r w))) = authorizer (client w)"
  by (simp_all add: oauth2_start_flow_def Let_def split: sum.splits)

lemma confidential_authorizer:
  "confidential_world w \<Longrightarrow>
   \<exists>cid secret. authorizer (client w) = Some (BasicAuthorizer cid secret)
                \<and> client_id (client w) = Some cid"
  by (induction rule: confidential_world.induct)
     (simp_all add: client_unchanged start_flow_identity
        ConfidentialAppAuthClient_init_def AuthLoginClient_init_def)

text \<open>
  Claim C10 says that \<open>oauth2_validate_token\<close> and \<open>oauth2_revoke_token\<close> of a
  confidential client never include client_id in the request body. The methods merge the
  caller's \<open>body_params\<close> into the body last: called with
  \<open>body_params={"client_id": "X"}\<close>, \<open>oauth2_revoke_token\<close> posts a body that holds
  \<open>client_id\<close>.
\<close>

theorem confidential_body_params_counterexample:
  "http_log (snd (oauth2_revoke_token (\<lambda>l r. Inr (GlobusHTTPResponse 200 [])) ''tok123''
       (Some [''client_id'' \<mapsto> PScalar (SStr ''X'')])
       \<lparr>client = ConfidentialAppAuthClient_init (SStr ''CID1'') ''SECRET'',
         flow_managers = [], http_log = []\<rparr>))
     = [post_request ''/v2/oauth2/token/revoke''
          [''token'' \<mapsto> PScalar (SStr ''tok123''), ''client_id'' \<mapsto> PScalar (SStr ''X'')]
          ''form'']
   \<and> [''token'' \<mapsto> PScalar (SStr ''tok123''), ''client_id'' \<mapsto> PScalar (SStr ''X'')] ''client_id''
       = Some (PScalar (SStr ''X''))"
  by (simp add: revoke_log update_if_truthy_Some is_optional_def
        ConfidentialAppAuthClient_init_def AuthLoginClient_init_def)

text \<open>
  Claim C10, amended. Every \<open>ConfidentialAppAuthClient\<close> is constructed with a
  \<open>BasicAuthorizer\<close> built from its client_id and client_secret, and in every state
  of the client the authorizer is such a \<open>BasicAuthorizer\<close>, never \<open>None\<close> and never
  a \<open>NullAuthorizer\<close>. So the unauthenticated-client branch of
  \<open>oauth2_validate_token\<close> and \<open>oauth2_revoke_token\<close> is never taken: the body they
  post is the token updated with the caller's \<open>body_params\<close>. It is the token alone
  when \<open>body_params\<close> is \<open>None\<close>, and it holds \<open>client_id\<close> exactly when
  \<open>body_params\<close> does.
\<close>

theorem confidential_never_unauthenticated:
  assumes "confidential_world w"
  shows "(\<exists>cid secret. authorizer (client w) = Some (BasicAuthorizer cid secret)
                        \<and> client_id (client w) = Some cid)
     \<and> authorizer (ConfidentialAppAuthClient_init client_id' client_secret)
         = Some (BasicAuthorizer (py_str client_id') client_secret)
     \<and> \<not> is_optional (authorizer (client w)) isinstance_NullAuthorizer
     \<and> http_log (snd (oauth2_validate_token send token body_params w))
         = http_log w @
           [post_request ''/v2/oauth2/token/validate''
              (update_if_truthy [''token'' \<mapsto> PScalar (SStr token)] body_params) ''form'']
     \<and> http_log (snd (oauth2_revoke_token send token body_params w))
         = http_log w @
           [post_request ''/v2/oauth2/token/revoke''
              (update_if_truthy [''token'' \<mapsto> PScalar (SStr token)] body_params) ''form'']
     \<and> update_if_truthy [''token'' \<mapsto> PScalar (SStr token)] None
         = [''token'' \<mapsto> PScalar (SStr token)]
     \<and> update_if_truthy [''token'' \<mapsto> PScalar (SStr token)] (Some bp) ''client_id''
         = bp ''client_id''"
proof -
  from confidential_authorizer [OF assms] obtain cid secret
    where a: "authorizer (client w) = Some (BasicAuthorizer cid secret)"
      and c: "client_id (client w) = Some cid"
    by blast
  have n: "\<not> is_optional (authorizer (client w)) isinstance_NullAuthorizer"
    using a by (simp add: is_optional_def)
  have i: "authorizer (ConfidentialAppAuthClient_init client_id' client_secret)
         = Some (BasicAuthorizer (py_str client_id') client_secret)"
    by (simp add: ConfidentialAppAuthClient_init_def AuthLoginClient_init_def)
  have v: "http_log (snd (oauth2_validate_token send token body_params w))
         = http_log w @
           [post_request ''/v2/oauth2/token/validate''
              (update_if_truthy [''token'' \<mapsto> PScalar (SStr token)] body_params) ''form'']"
    using n c by (simp add: validate_log)
  have r: "http_log (snd (oauth2_revoke_token send token body_params w))
         = http_log w @
           [post_request ''/v2/oauth2/token/revoke''
              (update_if_truthy [''token'' \<mapsto> PScalar (SStr token)] body_params) ''form'']"
    using n c by (simp add: revoke_log)
  have u: "update_if_truthy [''token'' \<mapsto> PScalar (SStr token)] (Some bp) ''client_id''
         = bp ''client_id''"
    by (simp add: update_if_truthy_Some map_add_def split: option.splits)
  from a c n i v r u show ?thesis by (simp add: update_if_truthy_None)
qed

theorem confidential_never_unauthenticated_witness:
  "confidential_world
     (snd (oauth2_start_flow ''https://example.org/cb'' None ''_default'' False
        \<lparr>client = ConfidentialAppAuthClient_init (SStr ''CID1'') ''SECRET'',
          flow_managers = [], http_log = []\<rparr>))
   \<and> http_log (snd (oauth2_revoke_token (\<lambda>l r. Inr (GlobusHTTPResponse 200 [])) ''tok123'' None
        (snd (oauth2_start_flow ''https://example.org/cb'' None ''_default'' False
           \<lparr>client = ConfidentialAppAuthClient_init (SStr ''CID1'') ''SECRET'',
             flow_managers = [], http_log = []\<rparr>))))
     = [post_request ''/v2/oauth2/token/revoke'' [''token'' \<mapsto> PScalar (SStr ''tok123'')] ''form'']"
proof -
  let ?w0 = "\<lparr>client = ConfidentialAppAuthClient_init (SStr ''CID1'') ''SECRET'',
          flow_managers = [], http_log = []\<rparr>"
  let ?w = "snd (oauth2_start_flow ''https://example.org/cb'' None ''_default'' False ?w0)"
  have h: "confidential_world ?w"
    by (rule confidential_world.start_flow) (rule confidential_world.constructed)
  note t = confidential_never_unauthenticated [OF h, of _ _ "\<lambda>l r. Inr (GlobusHTTPResponse 200 [])"
      "''tok123''" None]
  from t have "http_log (snd (oauth2_revoke_token (\<lambda>l r. Inr (GlobusHTTPResponse 200 [])) ''tok123'' None ?w))
         = http_log ?w @
           [post_request ''/v2/oauth2/token/revoke''
              (update_if_truthy [''token'' \<mapsto> PScalar (SStr ''tok123'')] None) ''form'']"
    by blast
  moreover have "http_log ?w = []"
    by (simp add: oauth2_start_flow_def GlobusAuthorizationCodeFlowManager_init_def
          manager_scopes_string_def DEFAULT_REQUESTED_SCOPES_def Let_def)
  ultimately show ?thesis using h by (simp add: update_if_truthy_None)
qed

end
